theory Spec2Isabelle
  imports Complex_Main
begin

section \<open>The menu synchronisation of \<^verbatim>\<open>js/rm_styler.js\<close>\<close>

subsection \<open>Values, widgets and the fetched listing\<close>

text \<open>
  The values the script reads and writes in a widget's \<^verbatim>\<open>value\<close> are the
  undefined value and strings.
\<close>

datatype jsval = JUndefined | JStr string

text \<open>
  The listing served by \<^verbatim>\<open>/rm_styler/data\<close> is an object whose own keys are
  category names. An entry is an array of style names or, outside the intended
  shape, a falsy value such as \<^verbatim>\<open>null\<close>. A body that parses to a falsy
  value is the absent mapping \<open>None\<close>.
\<close>

datatype entry = Falsy | Styles "string list"

type_synonym styles_map = "string \<rightharpoonup> entry"

text \<open>
  The listing is a plain object, so a key that is not its own is looked up in
  \<^verbatim>\<open>Object.prototype\<close>. These are the names found there; each names a
  function, or for \<^verbatim>\<open>__proto__\<close> the prototype object itself: a truthy
  value that is no array and has no \<^verbatim>\<open>includes\<close>.
\<close>

definition object_prototype :: "string list" where
  "object_prototype =
     [''constructor'', ''__defineGetter__'', ''__defineSetter__'', ''hasOwnProperty'',
      ''__lookupGetter__'', ''__lookupSetter__'', ''isPrototypeOf'',
      ''propertyIsEnumerable'', ''toString'', ''valueOf'', ''__proto__'',
      ''toLocaleString'']"

text \<open>
  The result of \<^verbatim>\<open>stylesMap[k]\<close>: the undefined value, an own entry, or the
  inherited member of that name.
\<close>

datatype property = NoProperty | Own entry | Inherited string

definition get_property :: "styles_map \<Rightarrow> string \<Rightarrow> property" where
  "get_property m k =
     (case m k of
        Some en \<Rightarrow> Own en
      | None \<Rightarrow> if k \<in> set object_prototype then Inherited k else NoProperty)"

text \<open>A property key is the string of the value used as key.\<close>

fun toPropertyKey :: "jsval \<Rightarrow> string" where
  "toPropertyKey JUndefined = ''undefined''"
| "toPropertyKey (JStr s) = s"

text \<open>\<^verbatim>\<open>xs.includes(v)\<close> on an array of strings.\<close>

fun js_includes :: "string list \<Rightarrow> jsval \<Rightarrow> bool" where
  "js_includes xs JUndefined = False"
| "js_includes xs (JStr s) = (s \<in> set xs)"

text \<open>\<^verbatim>\<open>xs[0]\<close>: reading past the end of an array gives the undefined value.\<close>

fun first_item :: "string list \<Rightarrow> jsval" where
  "first_item [] = JUndefined"
| "first_item (x # _) = JStr x"

text \<open>
  What \<^verbatim>\<open>options.values\<close> of a widget holds: an array of names or, after
  line 35 has stored an inherited member, that member. Line 35 stores the
  listing's own array; the model stores its content, the two differ only if
  some other code changes that array in place.
\<close>

datatype option_values = Values "string list" | Member string

text \<open>
  A widget: its \<^verbatim>\<open>name\<close>, its \<^verbatim>\<open>value\<close>, its
  \<^verbatim>\<open>options.values\<close> and its \<^verbatim>\<open>callback\<close> (\<open>None\<close> when
  the property is not set).
\<close>

record 'cb widget =
  w_name :: string
  w_value :: jsval
  w_values :: option_values
  w_callback :: "'cb option"

text \<open>
  Function values are represented by what they close over. \<open>HostCallback h\<close> is a
  callback installed by the host or by another extension, \<open>CategoryCallback m orig\<close>
  is the function of lines 55 to 60 of the script, closed over \<^verbatim>\<open>stylesMap\<close>
  and \<^verbatim>\<open>originalCallback\<close>.
\<close>

datatype 'h callback =
  HostCallback 'h
| CategoryCallback "styles_map option" "'h callback option"

text \<open>How a call ends: with a returned value or with a thrown one.\<close>

datatype outcome = Returns jsval | Throws jsval

text \<open>
  The two widget objects that \<^verbatim>\<open>onNodeCreated\<close> finds and that the closures
  \<^verbatim>\<open>updateStyles\<close> and the category callback capture.
\<close>

record 'h env =
  categoryWidget :: "'h callback widget"
  styleWidget :: "'h callback widget"

definition NO_STYLES :: string where
  "NO_STYLES = ''No Styles Found''"

subsection \<open>\<^verbatim>\<open>updateStyles\<close> (lines 33 to 45)\<close>

text \<open>
  The result is how the call ends and the style widget it leaves. For an
  inherited member the test of line 34 succeeds, line 35 stores the member, and
  the call of its missing \<^verbatim>\<open>includes\<close> in line 38 throws a
  \<^verbatim>\<open>TypeError\<close>.
\<close>

definition updateStyles ::
  "styles_map option \<Rightarrow> jsval \<Rightarrow> 'cb widget \<Rightarrow> outcome \<times> 'cb widget" where
  "updateStyles stylesMap selectedCategory styleW =
     (case stylesMap of
        None \<Rightarrow>
          (Returns JUndefined, styleW\<lparr>w_values := Values [NO_STYLES], w_value := JStr NO_STYLES\<rparr>)
      | Some m \<Rightarrow>
          (case get_property m (toPropertyKey selectedCategory) of
             Own (Styles xs) \<Rightarrow>
               (let styleW' = styleW\<lparr>w_values := Values xs\<rparr>
                in if \<not> js_includes xs (w_value styleW')
                   then (Returns JUndefined, styleW'\<lparr>w_value := first_item xs\<rparr>)
                   else (Returns JUndefined, styleW'))
           | Inherited k \<Rightarrow>
               (Throws (JStr ''TypeError''), styleW\<lparr>w_values := Member k\<rparr>)
           | Own Falsy \<Rightarrow>
               (Returns JUndefined,
                styleW\<lparr>w_values := Values [NO_STYLES], w_value := JStr NO_STYLES\<rparr>)
           | NoProperty \<Rightarrow>
               (Returns JUndefined,
                styleW\<lparr>w_values := Values [NO_STYLES], w_value := JStr NO_STYLES\<rparr>)))"

subsection \<open>The category callback (lines 55 to 60)\<close>

text \<open>
  Calling a function value with a receiver \<open>this\<close> and an argument list. The
  behaviour of a host callback is the parameter \<open>host\<close>. The parameter
  \<^verbatim>\<open>value\<close> of the category callback is the first argument, the undefined
  value when the call has none. When \<^verbatim>\<open>updateStyles\<close> throws, the
  callback ends there.
\<close>

fun first_arg :: "jsval list \<Rightarrow> jsval" where
  "first_arg [] = JUndefined"
| "first_arg (v # _) = v"

fun invoke ::
  "('h \<Rightarrow> 't \<Rightarrow> jsval list \<Rightarrow> 'h env \<Rightarrow> outcome \<times> 'h env) \<Rightarrow>
   'h callback \<Rightarrow> 't \<Rightarrow> jsval list \<Rightarrow> 'h env \<Rightarrow> outcome \<times> 'h env" where
  "invoke host (HostCallback h) this args e = host h this args e"
| "invoke host (CategoryCallback stylesMap originalCallback) this args e =
     (case updateStyles stylesMap (first_arg args) (styleWidget e) of
        (Throws x, w) \<Rightarrow> (Throws x, e\<lparr>styleWidget := w\<rparr>)
      | (Returns _, w) \<Rightarrow>
          (case originalCallback of
             Some cb \<Rightarrow> invoke host cb this args (e\<lparr>styleWidget := w\<rparr>)
           | None \<Rightarrow> (Returns JUndefined, e\<lparr>styleWidget := w\<rparr>)))"

subsection \<open>\<^verbatim>\<open>fetchData\<close> (lines 21 to 30)\<close>

text \<open>
  What the script does that the outside can observe: a call of
  \<^verbatim>\<open>api.fetchApi\<close> with its path, and a call of
  \<^verbatim>\<open>console.error\<close> with its message.
\<close>

datatype event = FetchApi string | ConsoleError string

text \<open>
  How the request ends: \<^verbatim>\<open>api.fetchApi\<close> rejects, or
  \<^verbatim>\<open>response.json()\<close> rejects, or the body parses to a listing.
\<close>

datatype fetch_outcome = NetworkError | ParseError | Json "styles_map option"

text \<open>
  \<^verbatim>\<open>fetchData\<close> runs in two parts, split at its first \<^verbatim>\<open>await\<close>:
  the call issues the request; when the request has ended, the rest runs and
  the promise is fulfilled with the value returned.
\<close>

definition fetchData_call :: "event list \<Rightarrow> event list" where
  "fetchData_call evs = evs @ [FetchApi ''/rm_styler/data'']"

fun fetchData_resume :: "fetch_outcome \<Rightarrow> event list \<Rightarrow> styles_map option \<times> event list" where
  "fetchData_resume (Json data) evs = (data, evs)"
| "fetchData_resume NetworkError evs =
     (Some Map.empty, evs @ [ConsoleError ''RMStyler: Error fetching style data''])"
| "fetchData_resume ParseError evs =
     (Some Map.empty, evs @ [ConsoleError ''RMStyler: Error fetching style data''])"

subsection \<open>Initialisation (lines 48 to 61) and \<^verbatim>\<open>onNodeCreated\<close> (lines 10 to 64)\<close>

text \<open>
  The function passed to \<^verbatim>\<open>then\<close>, applied to the fetched listing. When
  the update of line 50 throws, lines 54 to 60 are not reached and no callback
  is installed.
\<close>

definition initialize :: "styles_map option \<Rightarrow> 'h env \<Rightarrow> outcome \<times> 'h env" where
  "initialize stylesMap e =
     (case updateStyles stylesMap (w_value (categoryWidget e)) (styleWidget e) of
        (Throws x, w) \<Rightarrow> (Throws x, e\<lparr>styleWidget := w\<rparr>)
      | (Returns _, w) \<Rightarrow>
          (let e1 = e\<lparr>styleWidget := w\<rparr>;
               originalCallback = w_callback (categoryWidget e1)
           in (Returns JUndefined,
               e1\<lparr>categoryWidget :=
                    (categoryWidget e1)\<lparr>w_callback :=
                       Some (CategoryCallback stylesMap originalCallback)\<rparr>\<rparr>)))"

definition find_widget :: "string \<Rightarrow> 'cb widget list \<Rightarrow> 'cb widget option" where
  "find_widget nm ws = find (\<lambda>w. w_name w = nm) ws"

text \<open>
  \<open>original\<close> is the \<^verbatim>\<open>onNodeCreated\<close> found on the prototype before the
  extension replaces it (line 8); it may change the node's widgets.
\<close>

definition call_original ::
  "('ws \<Rightarrow> outcome \<times> 'ws) option \<Rightarrow> 'ws \<Rightarrow> outcome \<times> 'ws" where
  "call_original original ws =
     (case original of None \<Rightarrow> (Returns JUndefined, ws) | Some f \<Rightarrow> f ws)"

text \<open>
  \<^verbatim>\<open>this.widgets\<close> is \<open>None\<close> when the node has no such property; reading
  \<^verbatim>\<open>find\<close> from it throws. The result is how the call ends, the events of
  the call, and, when the initialisation was started, the two widgets captured
  by the function that waits for the promise of \<^verbatim>\<open>fetchData\<close>.
\<close>

definition onNodeCreated ::
  "('h callback widget list option \<Rightarrow> outcome \<times> 'h callback widget list option) option \<Rightarrow>
   'h callback widget list option \<Rightarrow> outcome \<times> event list \<times> 'h env option" where
  "onNodeCreated original ws =
     (case call_original original ws of
        (Throws x, _) \<Rightarrow> (Throws x, [], None)
      | (Returns r, None) \<Rightarrow> (Throws (JStr ''TypeError''), [], None)
      | (Returns r, Some l) \<Rightarrow>
          (case find_widget ''category'' l of
             None \<Rightarrow> (Returns r, [], None)
           | Some c \<Rightarrow>
               (case find_widget ''style'' l of
                  None \<Rightarrow> (Returns r, [], None)
                | Some s \<Rightarrow>
                    (Returns r, fetchData_call [],
                     Some \<lparr>categoryWidget = c, styleWidget = s\<rparr>))))"

text \<open>
  What a started initialisation leaves behind: the two captured widgets,
  whether the promise of \<^verbatim>\<open>fetchData\<close> is still awaited, and the events
  so far.
\<close>

record 'h session =
  closure :: "'h env"
  awaiting :: bool
  events :: "event list"

definition started :: "event list \<Rightarrow> 'h env \<Rightarrow> 'h session" where
  "started evs e = \<lparr>closure = e, awaiting = True, events = evs\<rparr>"

text \<open>
  What happens to a session afterwards: the request ends, or the host calls the
  category widget's callback (a category change), or the host changes the
  widgets in some other way.
\<close>

datatype ('h, 't) input =
  Settle fetch_outcome
| Change 't "jsval list"
| HostAction "'h env \<Rightarrow> 'h env"

text \<open>
  What the host alone does to the two widgets at an input: at a category change
  it calls the callback the category widget has at that moment.
\<close>

fun host_step ::
  "('h \<Rightarrow> 't \<Rightarrow> jsval list \<Rightarrow> 'h env \<Rightarrow> outcome \<times> 'h env) \<Rightarrow>
   ('h, 't) input \<Rightarrow> 'h env \<Rightarrow> 'h env" where
  "host_step host (Settle r) e = e"
| "host_step host (Change this args) e =
     (case w_callback (categoryWidget e) of
        None \<Rightarrow> e
      | Some cb \<Rightarrow> snd (invoke host cb this args e))"
| "host_step host (HostAction f) e = f e"

fun host_run ::
  "('h \<Rightarrow> 't \<Rightarrow> jsval list \<Rightarrow> 'h env \<Rightarrow> outcome \<times> 'h env) \<Rightarrow>
   ('h, 't) input list \<Rightarrow> 'h env \<Rightarrow> 'h env" where
  "host_run host [] e = e"
| "host_run host (i # is) e = host_run host is (host_step host i e)"

text \<open>
  A step of the session. When the awaited request ends, the rest of
  \<^verbatim>\<open>fetchData\<close> and then the initialisation run; a request ends once.
\<close>

fun step ::
  "('h \<Rightarrow> 't \<Rightarrow> jsval list \<Rightarrow> 'h env \<Rightarrow> outcome \<times> 'h env) \<Rightarrow>
   ('h, 't) input \<Rightarrow> 'h session \<Rightarrow> 'h session" where
  "step host (Settle r) s =
     (if awaiting s
      then (case fetchData_resume r (events s) of
              (stylesMap, evs) \<Rightarrow>
                s\<lparr>closure := snd (initialize stylesMap (closure s)),
                  awaiting := False, events := evs\<rparr>)
      else s)"
| "step host (Change this args) s =
     s\<lparr>closure := host_step host (Change this args) (closure s)\<rparr>"
| "step host (HostAction f) s = s\<lparr>closure := f (closure s)\<rparr>"

fun run ::
  "('h \<Rightarrow> 't \<Rightarrow> jsval list \<Rightarrow> 'h env \<Rightarrow> outcome \<times> 'h env) \<Rightarrow>
   ('h, 't) input list \<Rightarrow> 'h session \<Rightarrow> 'h session" where
  "run host [] s = s"
| "run host (i # is) s = run host is (step host i s)"

fun is_fetch :: "event \<Rightarrow> bool" where
  "is_fetch (FetchApi _) = True"
| "is_fetch (ConsoleError _) = False"

fun is_settle :: "('h, 't) input \<Rightarrow> bool" where
  "is_settle (Settle _) = True"
| "is_settle (Change _ _) = False"
| "is_settle (HostAction _) = False"

fun is_change :: "('h, 't) input \<Rightarrow> bool" where
  "is_change (Settle _) = False"
| "is_change (Change _ _) = True"
| "is_change (HostAction _) = False"

subsection \<open>Example values\<close>

text \<open>
  A node with a category widget that already has a host callback, a style
  widget, a host whose callback stores its first argument as the category
  widget's value and returns it, and a listing.
\<close>

definition ex_category :: "unit callback widget" where
  "ex_category = \<lparr>w_name = ''category'', w_value = JStr ''Basic'',
                  w_values = Values [''Basic'', ''Artists''],
                  w_callback = Some (HostCallback ())\<rparr>"

definition ex_style :: "unit callback widget" where
  "ex_style = \<lparr>w_name = ''style'', w_value = JStr ''Noir'',
               w_values = Values [], w_callback = None\<rparr>"

definition ex_host :: "unit \<Rightarrow> unit \<Rightarrow> jsval list \<Rightarrow> unit env \<Rightarrow> outcome \<times> unit env" where
  "ex_host h this args e =
     (Returns (first_arg args),
      e\<lparr>categoryWidget := (categoryWidget e)\<lparr>w_value := first_arg args\<rparr>\<rparr>)"

definition ex_listing :: styles_map where
  "ex_listing = [''Basic'' \<mapsto> Styles [''Anime'', ''Noir''], ''Artists'' \<mapsto> Styles [''Monet'']]"

section \<open>The style resolution engine\<close>

text \<open>
  The resolution engine lives in \<^verbatim>\<open>rm_styler.py\<close>. Its data and its
  functions are modelled from the specification, sections 3 and 4; the token
  is the one the repository's documentation names.
\<close>

subsection \<open>Data\<close>

text \<open>
  Modelled from the spec: the StyleRecord of section 3; missing is the engine's
  own declaration in \<^verbatim>\<open>rm_styler.py\<close>, as for everything in this section.
\<close>

record style_record =
  name :: string
  positivePrompt :: string
  negativePrompt :: string

text \<open>
  Modelled from the spec: the StyleCatalog of section 3, a mapping from a
  category name to the category's ordered sequence of style records.
\<close>

type_synonym catalog = "string \<rightharpoonup> style_record list"

text \<open>
  Modelled from the spec: the StyleSelection of section 3; the weight is a
  real number.
\<close>

record selection =
  categoryName :: string
  styleName :: string
  weight :: real
  positiveEnabled :: bool
  negativeEnabled :: bool

text \<open>Modelled from the spec: the substitution token of section 4.2 and the glossary.\<close>

definition TOKEN :: string where
  "TOKEN = ''{prompt}''"

text \<open>Modelled from the spec: the fallback text of section 4.4, step 1.\<close>

definition FALLBACK_TEXT :: string where
  "FALLBACK_TEXT = ''No Styles Found''"

subsection \<open>Template substitution\<close>

text \<open>
  Modelled from the spec: whether a string begins with the token, and whether
  the token occurs in it (section 4.2, "contains the substitution token").
\<close>

definition starts_with :: "string \<Rightarrow> string \<Rightarrow> bool" where
  "starts_with tok s = (take (length tok) s = tok)"

fun contains :: "string \<Rightarrow> string \<Rightarrow> bool" where
  "contains tok [] = (tok = [])"
| "contains tok (c # cs) = (starts_with tok (c # cs) \<or> contains tok cs)"

text \<open>
  Modelled from the spec: "every occurrence is replaced" (section 4.2), as a
  scan from the left that replaces the token where it stands and goes on
  behind it.
\<close>

function replace_all :: "string \<Rightarrow> string \<Rightarrow> string \<Rightarrow> string" where
  "replace_all tok rep [] = []"
| "replace_all tok rep (c # cs) =
     (if tok \<noteq> [] \<and> starts_with tok (c # cs)
      then rep @ replace_all tok rep (drop (length tok) (c # cs))
      else c # replace_all tok rep cs)"
  by pat_completeness auto
termination
  by (relation "measure (\<lambda>(tok, rep, s). length s)") auto

text \<open>
  Modelled from the spec: \<open>substitute(template, promptFragment)\<close> of section
  4.2; missing is the engine's function that merges a template and a prompt.
\<close>

definition substitute :: "string \<Rightarrow> string \<Rightarrow> string" where
  "substitute template promptFragment =
     (if contains TOKEN template then replace_all TOKEN promptFragment template
      else if template = [] then promptFragment
      else template @ '', '' @ promptFragment)"

text \<open>The pieces of a string joined by a separator.\<close>

fun join :: "string \<Rightarrow> string list \<Rightarrow> string" where
  "join sep [] = []"
| "join sep [p] = p"
| "join sep (p # q # ps) = p @ sep @ join sep (q # ps)"

subsection \<open>The resolvers\<close>

text \<open>
  Modelled from the spec: the lookup of a style by category name and style
  name (section 4.4, steps 1 and 2).
\<close>

definition lookup_style :: "catalog \<Rightarrow> string \<Rightarrow> string \<Rightarrow> style_record option" where
  "lookup_style cat c s =
     (case cat c of
        None \<Rightarrow> None
      | Some styles \<Rightarrow> find (\<lambda>r. name r = s) styles)"

text \<open>
  Modelled from the spec: \<open>resolveSingle\<close> of section 4.4, steps 1 to 4;
  missing is the engine's single-style resolver. The weight formatter of
  section 4.3, which renders a floating-point weight, is the parameter
  \<open>applyWeight\<close>; it is applied when the weight is not 1.0.
\<close>

definition resolveSingle ::
  "(string \<Rightarrow> real \<Rightarrow> string) \<Rightarrow> catalog \<Rightarrow> selection \<Rightarrow> string \<Rightarrow> string \<times> string" where
  "resolveSingle applyWeight cat sel promptFragment =
     (case cat (categoryName sel) of
        None \<Rightarrow> (FALLBACK_TEXT, '''')
      | Some styles \<Rightarrow>
          (case find (\<lambda>r. name r = styleName sel) styles of
             None \<Rightarrow> (FALLBACK_TEXT, '''')
           | Some style \<Rightarrow>
               (let positive = substitute (positivePrompt style) promptFragment
                in (if weight sel \<noteq> 1 then applyWeight positive (weight sel) else positive,
                    negativePrompt style))))"

text \<open>
  Modelled from the spec: one step of the positive chain of section 4.5. An
  enabled slot whose style resolves substitutes the accumulator into its
  weighted-or-plain positive template; a disabled slot, and a slot whose style
  does not resolve, pass the accumulator through.
\<close>

definition slot_positive ::
  "(string \<Rightarrow> real \<Rightarrow> string) \<Rightarrow> catalog \<Rightarrow> selection \<Rightarrow> string \<Rightarrow> string" where
  "slot_positive applyWeight cat sel acc =
     (case lookup_style cat (categoryName sel) (styleName sel) of
        None \<Rightarrow> acc
      | Some style \<Rightarrow>
          if positiveEnabled sel
          then substitute
                 (if weight sel \<noteq> 1 then applyWeight (positivePrompt style) (weight sel)
                  else positivePrompt style)
                 acc
          else acc)"

text \<open>
  Modelled from the spec: the loop of section 4.5, "for i from N down to 1".
  With \<open>Suc k\<close> the slot index \<open>i\<close>, the slot is the list's element at
  position \<open>k\<close>; the loop is started at \<open>N = length slots\<close>, so every read is in
  range.
\<close>

fun positive_loop ::
  "(string \<Rightarrow> real \<Rightarrow> string) \<Rightarrow> catalog \<Rightarrow> selection list \<Rightarrow> nat \<Rightarrow> string \<Rightarrow> string" where
  "positive_loop applyWeight cat slots 0 acc = acc"
| "positive_loop applyWeight cat slots (Suc k) acc =
     positive_loop applyWeight cat slots k (slot_positive applyWeight cat (slots ! k) acc)"

text \<open>
  Modelled from the spec: what a slot adds to the negative prompt (section
  4.5): its style's negative text when the slot's negative flag is on, the
  style resolves and the text is not empty.
\<close>

definition slot_negative :: "catalog \<Rightarrow> selection \<Rightarrow> string list" where
  "slot_negative cat sel =
     (case lookup_style cat (categoryName sel) (styleName sel) of
        None \<Rightarrow> []
      | Some style \<Rightarrow>
          if negativeEnabled sel \<and> negativePrompt style \<noteq> '''' then [negativePrompt style]
          else [])"

text \<open>
  Modelled from the spec: \<open>resolveMulti\<close> of section 4.5; missing is the
  engine's multi-style compositor. The negatives are joined by comma-space in
  slot order, slot 1 first.
\<close>

definition resolveMulti ::
  "(string \<Rightarrow> real \<Rightarrow> string) \<Rightarrow> catalog \<Rightarrow> selection list \<Rightarrow> string \<Rightarrow> string \<times> string" where
  "resolveMulti applyWeight cat slots basePrompt =
     (positive_loop applyWeight cat slots (length slots) basePrompt,
      join '', '' (concat (map (slot_negative cat) slots)))"

subsection \<open>Example values of the engine\<close>

definition ex_catalog :: catalog where
  "ex_catalog = [''Basic'' \<mapsto>
     [\<lparr>name = ''Cinematic'', positivePrompt = ''{prompt}, cinematic'', negativePrompt = ''blurry''\<rparr>,
      \<lparr>name = ''Vivid'', positivePrompt = ''{prompt}, vivid colors'', negativePrompt = ''dull''\<rparr>]]"

definition ex_slot :: "string \<Rightarrow> string \<Rightarrow> selection" where
  "ex_slot c s = \<lparr>categoryName = c, styleName = s, weight = 1,
                 positiveEnabled = True, negativeEnabled = True\<rparr>"

definition ex_applyWeight :: "string \<Rightarrow> real \<Rightarrow> string" where
  "ex_applyWeight text w = ''('' @ text @ '')''"

section \<open>Properties of the menu synchronisation\<close>

subsection \<open>Auxiliary facts\<close>

lemma first_item_mem: "first_item xs = JStr s \<Longrightarrow> s \<in> set xs"
  by (cases xs) auto

lemma first_item_single: "first_item [x] = JStr x"
  by simp

lemma get_property_cases:
  "get_property m k = NoProperty \<longleftrightarrow> m k = None \<and> k \<notin> set object_prototype"
  "get_property m k = Own en \<longleftrightarrow> m k = Some en"
  "get_property m k = Inherited k' \<longleftrightarrow> m k = None \<and> k \<in> set object_prototype \<and> k' = k"
  by (auto simp: get_property_def split: option.splits)

lemma updateStyles_absent:
  "updateStyles None c w =
     (Returns JUndefined, w\<lparr>w_values := Values [NO_STYLES], w_value := JStr NO_STYLES\<rparr>)"
  by (simp add: updateStyles_def)

lemma updateStyles_no_property:
  "m (toPropertyKey c) = None \<Longrightarrow> toPropertyKey c \<notin> set object_prototype \<Longrightarrow>
   updateStyles (Some m) c w =
     (Returns JUndefined, w\<lparr>w_values := Values [NO_STYLES], w_value := JStr NO_STYLES\<rparr>)"
  by (simp add: updateStyles_def get_property_def)

lemma updateStyles_falsy:
  "m (toPropertyKey c) = Some Falsy \<Longrightarrow>
   updateStyles (Some m) c w =
     (Returns JUndefined, w\<lparr>w_values := Values [NO_STYLES], w_value := JStr NO_STYLES\<rparr>)"
  by (simp add: updateStyles_def get_property_def)

lemma updateStyles_styles:
  "m (toPropertyKey c) = Some (Styles xs) \<Longrightarrow>
   updateStyles (Some m) c w =
     (Returns JUndefined,
      w\<lparr>w_values := Values xs,
        w_value := (if js_includes xs (w_value w) then w_value w else first_item xs)\<rparr>)"
  by (simp add: updateStyles_def get_property_def Let_def)

lemma updateStyles_inherited:
  "m (toPropertyKey c) = None \<Longrightarrow> toPropertyKey c \<in> set object_prototype \<Longrightarrow>
   updateStyles (Some m) c w =
     (Throws (JStr ''TypeError''), w\<lparr>w_values := Member (toPropertyKey c)\<rparr>)"
  by (simp add: updateStyles_def get_property_def)

lemma updateStyles_returns_iff:
  "fst (updateStyles stylesMap c w) = Returns JUndefined \<longleftrightarrow>
   \<not> (\<exists>m. stylesMap = Some m \<and> m (toPropertyKey c) = None
          \<and> toPropertyKey c \<in> set object_prototype)"
proof (cases stylesMap)
  case None
  then show ?thesis by (simp add: updateStyles_absent)
next
  case (Some m)
  show ?thesis
  proof (cases "m (toPropertyKey c)")
    case None
    then show ?thesis
      using Some updateStyles_no_property [of m c w] updateStyles_inherited [of m c w]
      by (cases "toPropertyKey c \<in> set object_prototype") simp_all
  next
    case (Some en)
    then show ?thesis
      using \<open>stylesMap = Some m\<close> updateStyles_falsy [of m c w] updateStyles_styles [of m c _ w]
      by (cases en) simp_all
  qed
qed

lemma updateStyles_outcome:
  "fst (updateStyles stylesMap c w) = Returns JUndefined
   \<or> fst (updateStyles stylesMap c w) = Throws (JStr ''TypeError'')"
proof (cases "\<exists>m. stylesMap = Some m \<and> m (toPropertyKey c) = None
          \<and> toPropertyKey c \<in> set object_prototype")
  case True
  then show ?thesis using updateStyles_inherited [of _ c w] by auto
next
  case False
  then show ?thesis using updateStyles_returns_iff [of stylesMap c w] by simp
qed

lemma initialize_returns:
  "fst (updateStyles stylesMap (w_value (categoryWidget e)) (styleWidget e)) = Returns JUndefined \<Longrightarrow>
   initialize stylesMap e =
     (Returns JUndefined,
      e\<lparr>styleWidget := snd (updateStyles stylesMap (w_value (categoryWidget e)) (styleWidget e)),
        categoryWidget := (categoryWidget e)\<lparr>w_callback :=
          Some (CategoryCallback stylesMap (w_callback (categoryWidget e)))\<rparr>\<rparr>)"
  by (cases "updateStyles stylesMap (w_value (categoryWidget e)) (styleWidget e)")
     (simp add: initialize_def Let_def)


lemma step_fetches:
  "filter is_fetch (events (step host i s)) = filter is_fetch (events s)"
proof (cases i)
  case (Settle r)
  then show ?thesis by (cases r) (simp_all split: prod.splits)
next
  case (Change this args)
  then show ?thesis by simp
next
  case (HostAction f)
  then show ?thesis by simp
qed

lemma run_fetches:
  "filter is_fetch (events (run host ins s)) = filter is_fetch (events s)"
  by (induction ins arbitrary: s) (simp_all add: step_fetches)

lemma step_unsettled:
  "\<not> is_settle i \<Longrightarrow>
   step host i s = s\<lparr>closure := host_step host i (closure s)\<rparr>"
  by (cases i) simp_all

lemma run_unsettled:
  "\<forall>i \<in> set pre. \<not> is_settle i \<Longrightarrow>
   run host pre s = s\<lparr>closure := host_run host pre (closure s)\<rparr>"
proof (induction pre arbitrary: s)
  case Nil
  then show ?case by simp
next
  case (Cons i pre)
  then show ?case by (simp add: step_unsettled)
qed


lemma onNodeCreated_started:
  assumes "onNodeCreated original ws = (out, evs, Some e)"
  shows "evs = [FetchApi ''/rm_styler/data'']"
    and "\<exists>rv. out = Returns rv \<and> fst (call_original original ws) = Returns rv"
    and "\<exists>l. snd (call_original original ws) = Some l
           \<and> find_widget ''category'' l = Some (categoryWidget e)
           \<and> find_widget ''style'' l = Some (styleWidget e)"
  using assms
  by (auto simp: onNodeCreated_def fetchData_call_def split: prod.splits outcome.splits option.splits)

lemma ex_node_created:
  "onNodeCreated None (Some [ex_category, ex_style]) =
     (Returns JUndefined, [FetchApi ''/rm_styler/data''],
      Some \<lparr>categoryWidget = ex_category, styleWidget = ex_style\<rparr>)"
  by (simp add: onNodeCreated_def call_original_def find_widget_def fetchData_call_def
      ex_category_def ex_style_def)

lemma host_run_changes:
  "\<forall>i \<in> set pre. is_change i \<Longrightarrow> w_callback (categoryWidget e) = None \<Longrightarrow>
   host_run host pre e = e"
proof (induction pre)
  case Nil
  then show ?case by simp
next
  case (Cons i pre)
  then have "host_step host i e = e" by (cases i) simp_all
  then show ?case using Cons by simp
qed

lemma changes_unsettled: "\<forall>i \<in> set pre. is_change i \<Longrightarrow> \<forall>i \<in> set pre. \<not> is_settle i"
proof
  fix i
  assume "\<forall>i \<in> set pre. is_change i" "i \<in> set pre"
  then have "is_change i" by blast
  then show "\<not> is_settle i" by (cases i) simp_all
qed

subsection \<open>The claims\<close>




text \<open>
  C2. When the fetched mapping has an entry for the selected category,
  \<open>updateStyles\<close> sets the style widget's valid values to the entry's list. A
  value held before that is a member of the list is kept; otherwise the value
  becomes the list's item at index 0, which for a list \<open>x # rest\<close> is its first
  element \<open>x\<close>.
\<close>

theorem updateStyles_entry:
  "stylesMap = Some m \<Longrightarrow> m (toPropertyKey selectedCategory) = Some (Styles xs) \<Longrightarrow>
   updateStyles stylesMap selectedCategory styleW =
     (Returns JUndefined,
      styleW\<lparr>w_values := Values xs,
             w_value := (if js_includes xs (w_value styleW) then w_value styleW
                         else first_item xs)\<rparr>)
   \<and> (\<forall>x rest. xs = x # rest \<and> \<not> js_includes xs (w_value styleW) \<longrightarrow>
          w_value (snd (updateStyles stylesMap selectedCategory styleW)) = JStr x)"
  using updateStyles_styles [of m selectedCategory xs styleW] by auto

theorem updateStyles_entry_witness:
  "updateStyles (Some ex_listing) (JStr ''Basic'') (ex_style\<lparr>w_value := JStr ''Sketch''\<rparr>)
   = (Returns JUndefined,
      ex_style\<lparr>w_values := Values [''Anime'', ''Noir''], w_value := JStr ''Anime''\<rparr>)
   \<and> updateStyles (Some ex_listing) (JStr ''Basic'') ex_style
   = (Returns JUndefined,
      ex_style\<lparr>w_values := Values [''Anime'', ''Noir''], w_value := JStr ''Noir''\<rparr>)"
proof -
  have h: "ex_listing (toPropertyKey (JStr ''Basic'')) = Some (Styles [''Anime'', ''Noir''])"
    by (simp add: ex_listing_def)
  show ?thesis
    using updateStyles_entry [of "Some ex_listing" ex_listing "JStr ''Basic''"
        "[''Anime'', ''Noir'']" "ex_style\<lparr>w_value := JStr ''Sketch''\<rparr>"]
      updateStyles_entry [of "Some ex_listing" ex_listing "JStr ''Basic''"
        "[''Anime'', ''Noir'']" ex_style] h
    by (simp add: ex_style_def)
qed







text \<open>
  C5, as amended. A node creation that finds both the category and the style
  widget issues exactly one request for the listing and leaves the two widgets
  as they were found: nothing is installed at creation. While the response has
  not arrived, the widgets change only by what the host does, the promise stays
  awaited and no event is added; a category widget found without a callback
  has none through any category changes before the response. When the response
  arrives, the initialisation runs with the mapping of that response, which for
  a parsed body is the body, and, when its first update returns, installs the
  category callback closed over that mapping; a response is taken once only.
  Every call of the installed callback applies \<open>updateStyles\<close> with the mapping
  it is closed over, and whatever happens after the creation, the events hold
  that one request and no other.
\<close>

theorem one_request_when_started:
  assumes created: "onNodeCreated original ws = (out, evs, Some e)"
  shows "evs = [FetchApi ''/rm_styler/data'']
     \<and> (\<exists>l. snd (call_original original ws) = Some l
            \<and> find_widget ''category'' l = Some (categoryWidget e)
            \<and> find_widget ''style'' l = Some (styleWidget e))
     \<and> started evs e = \<lparr>closure = e, awaiting = True, events = evs\<rparr>
     \<and> (\<forall>pre. (\<forall>i \<in> set pre. \<not> is_settle i) \<longrightarrow>
            run host pre (started evs e) =
              \<lparr>closure = host_run host pre e, awaiting = True, events = evs\<rparr>)
     \<and> (\<forall>pre. (\<forall>i \<in> set pre. is_change i) \<and> w_callback (categoryWidget e) = None \<longrightarrow>
            run host pre (started evs e) = \<lparr>closure = e, awaiting = True, events = evs\<rparr>)
     \<and> (\<forall>s r. awaiting s \<longrightarrow>
            closure (step host (Settle r) s) =
              snd (initialize (fst (fetchData_resume r (events s))) (closure s))
            \<and> \<not> awaiting (step host (Settle r) s)
            \<and> (fst (initialize (fst (fetchData_resume r (events s))) (closure s)) =
                  Returns JUndefined \<longrightarrow>
                w_callback (categoryWidget (closure (step host (Settle r) s))) =
                  Some (CategoryCallback (fst (fetchData_resume r (events s)))
                          (w_callback (categoryWidget (closure s))))))
     \<and> (\<forall>data evs'. fetchData_resume (Json data) evs' = (data, evs'))
     \<and> (\<forall>s r. \<not> awaiting s \<longrightarrow> step host (Settle r) s = s)
     \<and> (\<forall>m orig this args e2.
            invoke host (CategoryCallback m orig) this args e2 =
              (case updateStyles m (first_arg args) (styleWidget e2) of
                 (Throws x, w) \<Rightarrow> (Throws x, e2\<lparr>styleWidget := w\<rparr>)
               | (Returns v, w) \<Rightarrow>
                   (case orig of
                      Some cb \<Rightarrow> invoke host cb this args (e2\<lparr>styleWidget := w\<rparr>)
                    | None \<Rightarrow> (Returns JUndefined, e2\<lparr>styleWidget := w\<rparr>))))
     \<and> (\<forall>ins. filter is_fetch (events (run host ins (started evs e))) =
            [FetchApi ''/rm_styler/data''])"
proof -
  have evs: "evs = [FetchApi ''/rm_styler/data'']"
    using onNodeCreated_started(1) [OF created] .
  have found: "\<exists>l. snd (call_original original ws) = Some l
            \<and> find_widget ''category'' l = Some (categoryWidget e)
            \<and> find_widget ''style'' l = Some (styleWidget e)"
    using onNodeCreated_started(3) [OF created] .
  have at_creation: "started evs e = \<lparr>closure = e, awaiting = True, events = evs\<rparr>"
    by (simp add: started_def)
  have before: "run host pre (started evs e) =
              \<lparr>closure = host_run host pre e, awaiting = True, events = evs\<rparr>"
    if "\<forall>i \<in> set pre. \<not> is_settle i" for pre
    using run_unsettled [OF that, of host "started evs e"] by (simp add: started_def)
  have none_before: "run host pre (started evs e) = \<lparr>closure = e, awaiting = True, events = evs\<rparr>"
    if "\<forall>i \<in> set pre. is_change i" "w_callback (categoryWidget e) = None" for pre
    using before [OF changes_unsettled [OF that(1)]] host_run_changes [OF that, of host]
    by simp
  have settle: "closure (step host (Settle r) s) =
              snd (initialize (fst (fetchData_resume r (events s))) (closure s))
            \<and> \<not> awaiting (step host (Settle r) s)
            \<and> (fst (initialize (fst (fetchData_resume r (events s))) (closure s)) =
                  Returns JUndefined \<longrightarrow>
                w_callback (categoryWidget (closure (step host (Settle r) s))) =
                  Some (CategoryCallback (fst (fetchData_resume r (events s)))
                          (w_callback (categoryWidget (closure s)))))"
    if "awaiting s" for s :: "'a session" and r
  proof -
    let ?m = "fst (fetchData_resume r (events s))"
    have c: "closure (step host (Settle r) s) = snd (initialize ?m (closure s))"
      and a: "\<not> awaiting (step host (Settle r) s)"
      using that by (simp_all split: prod.splits)
    have i: "w_callback (categoryWidget (snd (initialize ?m (closure s)))) =
        Some (CategoryCallback ?m (w_callback (categoryWidget (closure s))))"
      if "fst (initialize ?m (closure s)) = Returns JUndefined"
    proof (cases "fst (updateStyles ?m (w_value (categoryWidget (closure s)))
        (styleWidget (closure s))) = Returns JUndefined")
      case True
      then show ?thesis using initialize_returns [OF True] by simp
    next
      case False
      then have "fst (updateStyles ?m (w_value (categoryWidget (closure s)))
          (styleWidget (closure s))) = Throws (JStr ''TypeError'')"
        using updateStyles_outcome by blast
      then have "fst (initialize ?m (closure s)) = Throws (JStr ''TypeError'')"
        by (cases "updateStyles ?m (w_value (categoryWidget (closure s))) (styleWidget (closure s))")
           (simp add: initialize_def)
      then show ?thesis using that by simp
    qed
    show ?thesis
      using c a i by simp
  qed
  have body: "fetchData_resume (Json data) evs' = (data, evs')" for data evs'
    by simp
  have once: "step host (Settle r) s = s" if "\<not> awaiting s" for s :: "'a session" and r
    using that by simp
  have call: "invoke host (CategoryCallback m orig) this args e2 =
              (case updateStyles m (first_arg args) (styleWidget e2) of
                 (Throws x, w) \<Rightarrow> (Throws x, e2\<lparr>styleWidget := w\<rparr>)
               | (Returns v, w) \<Rightarrow>
                   (case orig of
                      Some cb \<Rightarrow> invoke host cb this args (e2\<lparr>styleWidget := w\<rparr>)
                    | None \<Rightarrow> (Returns JUndefined, e2\<lparr>styleWidget := w\<rparr>)))"
    for m orig this args e2
    by simp
  have total: "filter is_fetch (events (run host ins (started evs e))) =
            [FetchApi ''/rm_styler/data'']" for ins
    by (simp add: run_fetches started_def evs)
  show ?thesis
    using evs found at_creation before none_before settle body once call total by blast
qed

theorem one_request_when_started_witness:
  "onNodeCreated None (Some [ex_category, ex_style]) =
     (Returns JUndefined, [FetchApi ''/rm_styler/data''],
      Some \<lparr>categoryWidget = ex_category, styleWidget = ex_style\<rparr>)
   \<and> run ex_host [Change () [JStr ''Artists'']]
        (started [FetchApi ''/rm_styler/data'']
           \<lparr>categoryWidget = ex_category, styleWidget = ex_style\<rparr>) =
       \<lparr>closure = host_run ex_host [Change () [JStr ''Artists'']]
                    \<lparr>categoryWidget = ex_category, styleWidget = ex_style\<rparr>,
        awaiting = True, events = [FetchApi ''/rm_styler/data'']\<rparr>
   \<and> filter is_fetch (events (run ex_host
        [Change () [JStr ''Artists''], Settle (Json (Some ex_listing)),
         Change () [JStr ''Basic''], Settle NetworkError, Change () [JStr ''Artists'']]
        (started [FetchApi ''/rm_styler/data'']
           \<lparr>categoryWidget = ex_category, styleWidget = ex_style\<rparr>))) =
       [FetchApi ''/rm_styler/data'']"
proof -
  have p: "\<forall>i \<in> set [Change () [JStr ''Artists'']]. \<not> is_settle (i :: (unit, unit) input)"
    by simp
  show ?thesis
    using one_request_when_started [OF ex_node_created, of ex_host] ex_node_created p by blast
qed

text \<open>
  The claim C5 as stated, one request per node creation, fails for a node that
  has a category widget and no style widget: its creation issues no request.
\<close>

theorem no_request_without_style_widget:
  "length (filter is_fetch (fst (snd (onNodeCreated None
      (Some [\<lparr>w_name = ''category'', w_value = JStr ''Basic'', w_values = Values [''Basic''],
              w_callback = (None :: unit callback option)\<rparr>]))))) \<noteq> 1"
  by (simp add: onNodeCreated_def call_original_def find_widget_def)

text \<open>
  C10, as amended. When the fetched mapping has an entry for the selected
  category and the entry's list is empty, \<open>updateStyles\<close> sets the style widget's
  valid values to the empty list and its value to the undefined value, and
  neither is the \<open>No Styles Found\<close> sentinel. The style widget is left with the
  single valid value \<open>No Styles Found\<close> and that value selected exactly when
  the mapping is absent, or has no property for the key, or has a falsy entry
  for it, or has for it the list that holds just \<open>No Styles Found\<close>.
\<close>

theorem updateStyles_empty_entry:
  "(stylesMap = Some m \<and> m (toPropertyKey selectedCategory) = Some (Styles []) \<longrightarrow>
      updateStyles stylesMap selectedCategory styleW =
        (Returns JUndefined, styleW\<lparr>w_values := Values [], w_value := JUndefined\<rparr>)
      \<and> w_values (snd (updateStyles stylesMap selectedCategory styleW)) \<noteq>
          Values [''No Styles Found'']
      \<and> w_value (snd (updateStyles stylesMap selectedCategory styleW)) \<noteq>
          JStr ''No Styles Found'')
   \<and> (w_values (snd (updateStyles stylesMap selectedCategory styleW)) =
          Values [''No Styles Found'']
       \<and> w_value (snd (updateStyles stylesMap selectedCategory styleW)) =
          JStr ''No Styles Found''
       \<longleftrightarrow>
       stylesMap = None
       \<or> (\<exists>m. stylesMap = Some m
             \<and> (m (toPropertyKey selectedCategory) = None
                  \<and> toPropertyKey selectedCategory \<notin> set object_prototype
                \<or> m (toPropertyKey selectedCategory) = Some Falsy
                \<or> m (toPropertyKey selectedCategory) = Some (Styles [''No Styles Found'']))))"
proof -
  let ?k = "toPropertyKey selectedCategory"
  let ?r = "updateStyles stylesMap selectedCategory styleW"
  let ?sentinel = "w_values (snd ?r) = Values [''No Styles Found'']
       \<and> w_value (snd ?r) = JStr ''No Styles Found''"
  have empty: "updateStyles (Some m0) selectedCategory styleW =
        (Returns JUndefined, styleW\<lparr>w_values := Values [], w_value := JUndefined\<rparr>)"
    if "m0 ?k = Some (Styles [])" for m0
    using that updateStyles_styles [of m0 selectedCategory "[]" styleW]
    by (cases "w_value styleW") simp_all
  have first: ?thesis if "stylesMap = None"
    using that updateStyles_absent [of selectedCategory styleW] by (simp add: NO_STYLES_def)
  have second: ?thesis if sm: "stylesMap = Some m'" for m'
  proof (cases "m' ?k")
    case None
    show ?thesis
    proof (cases "?k \<in> set object_prototype")
      case True
      then show ?thesis
        using sm None updateStyles_inherited [of m' selectedCategory styleW] by auto
    next
      case False
      then show ?thesis
        using sm None updateStyles_no_property [of m' selectedCategory styleW]
        by (auto simp: NO_STYLES_def)
    qed
  next
    case (Some en)
    show ?thesis
    proof (cases en)
      case Falsy
      then show ?thesis
        using sm Some updateStyles_falsy [of m' selectedCategory styleW]
        by (auto simp: NO_STYLES_def)
    next
      case (Styles xs)
      have r: "?r = (Returns JUndefined,
          styleW\<lparr>w_values := Values xs,
            w_value := (if js_includes xs (w_value styleW) then w_value styleW
                        else first_item xs)\<rparr>)"
        using sm Some Styles updateStyles_styles [of m' selectedCategory xs styleW] by simp
      have iff: "?sentinel \<longleftrightarrow> xs = [''No Styles Found'']"
      proof
        assume ?sentinel
        then show "xs = [''No Styles Found'']" by (simp add: r)
      next
        assume xs: "xs = [''No Styles Found'']"
        show ?sentinel
        proof (cases "js_includes xs (w_value styleW)")
          case True
          then have "w_value styleW = JStr ''No Styles Found''"
            using xs by (cases "w_value styleW") simp_all
          then show ?thesis using True xs by (simp add: r)
        next
          case False
          then show ?thesis using xs by (simp add: r)
        qed
      qed
      have e: "xs = [] \<longrightarrow> ?r = (Returns JUndefined, styleW\<lparr>w_values := Values [], w_value := JUndefined\<rparr>)"
        using empty [of m'] sm Some Styles by simp
      show ?thesis
        using sm Some Styles iff e by auto
    qed
  qed
  show ?thesis
    using first second by (cases stylesMap) auto
qed

theorem updateStyles_empty_entry_witness:
  "updateStyles (Some [''Basic'' \<mapsto> Styles []]) (JStr ''Basic'') ex_style
   = (Returns JUndefined, ex_style\<lparr>w_values := Values [], w_value := JUndefined\<rparr>)"
proof -
  have h: "Some [''Basic'' \<mapsto> Styles []] = Some [''Basic'' \<mapsto> Styles []]
      \<and> [''Basic'' \<mapsto> Styles []] (toPropertyKey (JStr ''Basic'')) = Some (Styles [])"
    by simp
  show ?thesis
    using updateStyles_empty_entry [of "Some [''Basic'' \<mapsto> Styles []]"
        "[''Basic'' \<mapsto> Styles []]" "JStr ''Basic''" ex_style,
        THEN conjunct1, THEN mp, OF h, THEN conjunct1] .
qed

text \<open>
  The claim C10 as stated, the sentinel only for an absent mapping or a missing
  key, fails for a mapping whose entry for the key is the list that holds just
  \<open>No Styles Found\<close>: the key is present and the style widget is left in the
  sentinel state.
\<close>

theorem updateStyles_sentinel_entry:
  "updateStyles (Some [''Basic'' \<mapsto> Styles [''No Styles Found'']]) (JStr ''Basic'') ex_style =
     (Returns JUndefined,
      ex_style\<lparr>w_values := Values [''No Styles Found''], w_value := JStr ''No Styles Found''\<rparr>)"
  by (simp add: updateStyles_def get_property_def ex_style_def)

section \<open>Properties of the style resolution engine\<close>

subsection \<open>Auxiliary facts on substitution and stacking\<close>

lemma starts_with_append: "starts_with tok (tok @ rest)"
  by (simp add: starts_with_def)

lemma starts_with_extend: "starts_with tok s \<Longrightarrow> starts_with tok (s @ rest)"
  by (metis append_eq_conv_conj append.assoc starts_with_def)

lemma contains_iff: "contains tok s \<longleftrightarrow> (\<exists>a b. s = a @ tok @ b)"
proof (induction s)
  case Nil
  then show ?case by auto
next
  case (Cons c cs)
  show ?case
  proof
    assume "contains tok (c # cs)"
    then consider "starts_with tok (c # cs)" | "contains tok cs" by auto
    then show "\<exists>a b. c # cs = a @ tok @ b"
    proof cases
      case 1
      then have "c # cs = [] @ tok @ drop (length tok) (c # cs)"
        by (metis append_Nil append_take_drop_id starts_with_def)
      then show ?thesis by blast
    next
      case 2
      then obtain a b where "cs = a @ tok @ b" using Cons.IH by blast
      then have "c # cs = (c # a) @ tok @ b" by simp
      then show ?thesis by blast
    qed
  next
    assume "\<exists>a b. c # cs = a @ tok @ b"
    then obtain a b where ab: "c # cs = a @ tok @ b" by blast
    show "contains tok (c # cs)"
    proof (cases a)
      case Nil
      have "starts_with tok (c # cs)"
        unfolding ab Nil by (simp add: starts_with_def)
      then show ?thesis by simp
    next
      case (Cons x a')
      then have "cs = a' @ tok @ b" using ab by simp
      then show ?thesis using Cons.IH by auto
    qed
  qed
qed

text \<open>The token has no border: no proper non-empty prefix of it is also a suffix.\<close>

lemma token_unbordered:
  "0 < k \<Longrightarrow> k < length TOKEN \<Longrightarrow> take (length TOKEN - k) TOKEN \<noteq> drop k TOKEN"
proof -
  assume "0 < k" "k < length TOKEN"
  then have "k \<in> {1, 2, 3, 4, 5, 6, 7}" by (auto simp: TOKEN_def)
  then show ?thesis by (auto simp: TOKEN_def)
qed

lemma no_straddle:
  assumes "\<not> contains TOKEN p" "p \<noteq> []"
  shows "\<not> starts_with TOKEN (p @ TOKEN @ rest)"
proof
  assume sw: "starts_with TOKEN (p @ TOKEN @ rest)"
  show False
  proof (cases "length TOKEN \<le> length p")
    case True
    then have "starts_with TOKEN p" using sw by (simp add: starts_with_def)
    then show False using assms by (cases p) auto
  next
    case False
    let ?k = "length p"
    have k: "0 < ?k" "?k < length TOKEN" using False assms(2) by auto
    have "p @ take (length TOKEN - ?k) TOKEN = TOKEN"
      using sw False by (simp add: starts_with_def)
    then have "drop ?k (p @ take (length TOKEN - ?k) TOKEN) = drop ?k TOKEN" by simp
    then have "take (length TOKEN - ?k) TOKEN = drop ?k TOKEN" by simp
    then show False using token_unbordered [OF k] by simp
  qed
qed

lemma replace_all_hit:
  "tok \<noteq> [] \<Longrightarrow> starts_with tok s \<Longrightarrow>
   replace_all tok f s = f @ replace_all tok f (drop (length tok) s)"
  by (cases s) (auto simp: starts_with_def)

lemma replace_all_piece:
  "\<not> contains TOKEN p \<Longrightarrow>
   replace_all TOKEN f (p @ TOKEN @ rest) = p @ f @ replace_all TOKEN f rest"
proof (induction p)
  case Nil
  have "TOKEN \<noteq> []" by (simp add: TOKEN_def)
  then show ?case
    using replace_all_hit [of TOKEN "TOKEN @ rest" f] starts_with_append [of TOKEN rest] by simp
next
  case (Cons c p)
  have "\<not> starts_with TOKEN ((c # p) @ TOKEN @ rest)"
    using no_straddle [OF Cons.prems] by simp
  moreover have "\<not> contains TOKEN p" using Cons.prems by simp
  ultimately show ?case using Cons.IH by simp
qed

lemma replace_all_free: "\<not> contains TOKEN p \<Longrightarrow> replace_all TOKEN f p = p"
  by (induction p) auto

lemma replace_all_join:
  "ps \<noteq> [] \<Longrightarrow> \<forall>p \<in> set ps. \<not> contains TOKEN p \<Longrightarrow>
   replace_all TOKEN f (join TOKEN ps) = join f ps"
proof (induction TOKEN ps rule: join.induct)
  case 1
  then show ?case by simp
next
  case (2 p)
  then show ?case by (simp add: replace_all_free)
next
  case (3 p q ps)
  then show ?case by (simp add: replace_all_piece)
qed

lemma contains_join:
  "2 \<le> length ps \<Longrightarrow> contains tok (join tok ps)"
proof -
  assume "2 \<le> length ps"
  then obtain p q rest where "ps = p # q # rest"
    by (cases ps; cases "tl ps") auto
  then show ?thesis by (auto simp: contains_iff)
qed

lemma first_occurrence:
  "contains TOKEN t \<Longrightarrow> \<exists>a b. t = a @ TOKEN @ b \<and> \<not> contains TOKEN a"
proof (induction t)
  case Nil
  then show ?case by (simp add: TOKEN_def)
next
  case (Cons c cs)
  show ?case
  proof (cases "starts_with TOKEN (c # cs)")
    case True
    then have "c # cs = [] @ TOKEN @ drop (length TOKEN) (c # cs)"
      by (metis append_Nil append_take_drop_id starts_with_def)
    moreover have "\<not> contains TOKEN []" by (simp add: TOKEN_def)
    ultimately show ?thesis by blast
  next
    case False
    then have "contains TOKEN cs" using Cons.prems by simp
    then obtain a b where ab: "cs = a @ TOKEN @ b" "\<not> contains TOKEN a"
      using Cons.IH by blast
    have "\<not> starts_with TOKEN (c # a)"
      using False ab(1) starts_with_extend [of TOKEN "c # a" "TOKEN @ b"] by auto
    then have "\<not> contains TOKEN (c # a)" using ab(2) by simp
    moreover have "c # cs = (c # a) @ TOKEN @ b" using ab(1) by simp
    ultimately show ?thesis by blast
  qed
qed

lemma pieces_exist:
  "contains TOKEN t \<Longrightarrow>
   \<exists>ps. 2 \<le> length ps \<and> (\<forall>p \<in> set ps. \<not> contains TOKEN p) \<and> t = join TOKEN ps"
proof (induction "length t" arbitrary: t rule: less_induct)
  case less
  obtain a b where ab: "t = a @ TOKEN @ b" "\<not> contains TOKEN a"
    using first_occurrence [OF less.prems] by blast
  show ?case
  proof (cases "contains TOKEN b")
    case False
    then have "2 \<le> length [a, b] \<and> (\<forall>p \<in> set [a, b]. \<not> contains TOKEN p) \<and> t = join TOKEN [a, b]"
      using ab by simp
    then show ?thesis by blast
  next
    case True
    have "length b < length t" using ab(1) by (simp add: TOKEN_def)
    then obtain qs where qs: "2 \<le> length qs" "\<forall>p \<in> set qs. \<not> contains TOKEN p" "b = join TOKEN qs"
      using less.hyps True by blast
    then obtain q qs' where "qs = q # qs'" by (cases qs) auto
    then have "2 \<le> length (a # qs) \<and> (\<forall>p \<in> set (a # qs). \<not> contains TOKEN p)
        \<and> t = join TOKEN (a # qs)"
      using qs ab by simp
    then show ?thesis by blast
  qed
qed

lemma positive_loop_take:
  "k \<le> length slots \<Longrightarrow>
   positive_loop aw cat slots k acc = foldr (slot_positive aw cat) (take k slots) acc"
proof (induction k arbitrary: acc)
  case 0
  then show ?case by simp
next
  case (Suc k)
  then have "take (Suc k) slots = take k slots @ [slots ! k]"
    by (simp add: take_Suc_conv_app_nth)
  then show ?case using Suc by simp
qed

lemma resolveMulti_foldr:
  "fst (resolveMulti aw cat slots base) = foldr (slot_positive aw cat) slots base"
  by (simp add: resolveMulti_def positive_loop_take)

lemma slot_positive_resolveSingle:
  "positiveEnabled sel \<Longrightarrow> weight sel = 1 \<Longrightarrow>
   lookup_style cat (categoryName sel) (styleName sel) = Some style \<Longrightarrow>
   slot_positive aw cat sel acc = fst (resolveSingle aw cat sel acc)"
  by (auto simp: slot_positive_def resolveSingle_def lookup_style_def Let_def split: option.splits)

subsection \<open>The claims on the engine\<close>

text \<open>
  C6. The positive prompt of \<open>resolveMulti\<close> is the chain of the slots' steps
  from the highest slot index down to slot 1: the last slot's step is applied
  to the base prompt first, and slot 1's step is applied last, to what the
  slots above it produced. The step of an enabled slot at weight 1.0 whose
  style resolves gives the positive prompt that \<open>resolveSingle\<close> gives for the
  slot with the accumulator as prompt fragment; a disabled slot passes the
  accumulator through. With base prompt \<open>a cat\<close>, slot 2's template
  \<open>{prompt}, vivid colors\<close> and slot 1's template \<open>{prompt}, cinematic\<close>, both
  enabled at weight 1.0, the positive prompt is
  \<open>a cat, vivid colors, cinematic\<close>.
\<close>

theorem resolveMulti_stacking:
  "fst (resolveMulti aw cat slots base) = foldr (slot_positive aw cat) slots base
   \<and> fst (resolveMulti aw cat (slot1 # rest) base) =
       slot_positive aw cat slot1 (fst (resolveMulti aw cat rest base))
   \<and> fst (resolveMulti aw cat (slots @ [slotN]) base) =
       fst (resolveMulti aw cat slots (slot_positive aw cat slotN base))
   \<and> (positiveEnabled sel \<and> weight sel = 1
       \<and> lookup_style cat (categoryName sel) (styleName sel) = Some style \<longrightarrow>
       slot_positive aw cat sel acc = fst (resolveSingle aw cat sel acc))
   \<and> (\<not> positiveEnabled sel \<longrightarrow> slot_positive aw cat sel acc = acc)
   \<and> fst (resolveMulti aw
        [''Basic'' \<mapsto>
          [\<lparr>name = ''Cinematic'', positivePrompt = ''{prompt}, cinematic'', negativePrompt = ''''\<rparr>,
           \<lparr>name = ''Vivid'', positivePrompt = ''{prompt}, vivid colors'', negativePrompt = ''''\<rparr>]]
        [\<lparr>categoryName = ''Basic'', styleName = ''Cinematic'', weight = 1.0,
           positiveEnabled = True, negativeEnabled = True\<rparr>,
         \<lparr>categoryName = ''Basic'', styleName = ''Vivid'', weight = 1.0,
           positiveEnabled = True, negativeEnabled = True\<rparr>]
        ''a cat'') = ''a cat, vivid colors, cinematic''"
proof -
  have ex: "fst (resolveMulti aw
        [''Basic'' \<mapsto>
          [\<lparr>name = ''Cinematic'', positivePrompt = ''{prompt}, cinematic'', negativePrompt = ''''\<rparr>,
           \<lparr>name = ''Vivid'', positivePrompt = ''{prompt}, vivid colors'', negativePrompt = ''''\<rparr>]]
        [\<lparr>categoryName = ''Basic'', styleName = ''Cinematic'', weight = 1.0,
           positiveEnabled = True, negativeEnabled = True\<rparr>,
         \<lparr>categoryName = ''Basic'', styleName = ''Vivid'', weight = 1.0,
           positiveEnabled = True, negativeEnabled = True\<rparr>]
        ''a cat'') = ''a cat, vivid colors, cinematic''"
    by (simp add: resolveMulti_def slot_positive_def lookup_style_def substitute_def
        TOKEN_def starts_with_def numeral_2_eq_2)
  have off: "slot_positive aw cat sel acc = acc" if "\<not> positiveEnabled sel"
    using that by (simp add: slot_positive_def split: option.splits)
  show ?thesis
    using ex off slot_positive_resolveSingle [of sel cat style aw acc]
    by (simp add: resolveMulti_foldr)
qed

theorem resolveMulti_stacking_witness:
  "slot_positive ex_applyWeight ex_catalog (ex_slot ''Basic'' ''Vivid'') ''a cat'' =
     fst (resolveSingle ex_applyWeight ex_catalog (ex_slot ''Basic'' ''Vivid'') ''a cat'')
   \<and> fst (resolveMulti ex_applyWeight ex_catalog
        [ex_slot ''Basic'' ''Cinematic'', ex_slot ''Basic'' ''Vivid''] ''a cat'') =
     slot_positive ex_applyWeight ex_catalog (ex_slot ''Basic'' ''Cinematic'')
       (fst (resolveMulti ex_applyWeight ex_catalog [ex_slot ''Basic'' ''Vivid''] ''a cat''))"
proof -
  have h: "positiveEnabled (ex_slot ''Basic'' ''Vivid'') \<and> weight (ex_slot ''Basic'' ''Vivid'') = 1
       \<and> lookup_style ex_catalog (categoryName (ex_slot ''Basic'' ''Vivid''))
            (styleName (ex_slot ''Basic'' ''Vivid'')) =
          Some \<lparr>name = ''Vivid'', positivePrompt = ''{prompt}, vivid colors'',
                negativePrompt = ''dull''\<rparr>"
    by (simp add: ex_slot_def ex_catalog_def lookup_style_def)
  show ?thesis
    using h resolveMulti_stacking [of ex_applyWeight ex_catalog _ "''a cat''"
        "ex_slot ''Basic'' ''Cinematic''" "[ex_slot ''Basic'' ''Vivid'']" _
        "ex_slot ''Basic'' ''Vivid''"
        "\<lparr>name = ''Vivid'', positivePrompt = ''{prompt}, vivid colors'',
          negativePrompt = ''dull''\<rparr>" "''a cat''"]
    by blast
qed

text \<open>
  C7. When the token occurs in the template, the template is a sequence of at
  least two token-free pieces joined by the token, and \<open>substitute\<close> gives the
  same pieces joined by the prompt fragment: every occurrence is replaced.
  When the token does not occur, the result is the template, a comma and a
  space, and the fragment, unless the template is empty: then the result is the
  fragment alone.
\<close>

theorem substitute_cases:
  "((\<exists>a b. template = a @ ''{prompt}'' @ b) \<longrightarrow>
      (\<exists>ps. 2 \<le> length ps \<and> (\<forall>p \<in> set ps. \<not> (\<exists>a b. p = a @ ''{prompt}'' @ b))
            \<and> template = join ''{prompt}'' ps
            \<and> substitute template promptFragment = join promptFragment ps))
   \<and> (\<not> (\<exists>a b. template = a @ ''{prompt}'' @ b) \<and> template \<noteq> '''' \<longrightarrow>
      substitute template promptFragment = template @ '', '' @ promptFragment)
   \<and> substitute '''' promptFragment = promptFragment
   \<and> substitute ''a {prompt} b'' ''X'' = ''a X b''
   \<and> substitute ''plain text'' ''X'' = ''plain text, X''
   \<and> substitute '''' ''X'' = ''X''"
proof -
  have present: "\<exists>ps. 2 \<le> length ps \<and> (\<forall>p \<in> set ps. \<not> (\<exists>a b. p = a @ ''{prompt}'' @ b))
            \<and> template = join ''{prompt}'' ps
            \<and> substitute template promptFragment = join promptFragment ps"
    if "\<exists>a b. template = a @ ''{prompt}'' @ b"
  proof -
    have c: "contains TOKEN template"
      using that by (simp add: contains_iff TOKEN_def)
    then obtain ps where ps: "2 \<le> length ps" "\<forall>p \<in> set ps. \<not> contains TOKEN p"
        "template = join TOKEN ps"
      using pieces_exist by blast
    have "ps \<noteq> []" using ps(1) by auto
    then have "substitute template promptFragment = join promptFragment ps"
      using c ps(2,3) by (simp add: substitute_def replace_all_join)
    then show ?thesis
      using ps by (auto simp: contains_iff TOKEN_def)
  qed
  have absent: "substitute template promptFragment = template @ '', '' @ promptFragment"
    if "\<not> (\<exists>a b. template = a @ ''{prompt}'' @ b)" "template \<noteq> ''''"
    using that by (simp add: substitute_def contains_iff TOKEN_def)
  have empty: "substitute '''' f = f" for f
    by (simp add: substitute_def TOKEN_def)
  have ex1: "substitute ''a {prompt} b'' ''X'' = ''a X b''"
    by (simp add: substitute_def TOKEN_def starts_with_def)
  have ex2: "substitute ''plain text'' ''X'' = ''plain text, X''"
    by (simp add: substitute_def TOKEN_def starts_with_def)
  show ?thesis
    using present absent empty ex1 ex2 by blast
qed

theorem substitute_cases_witness:
  "(\<exists>ps. 2 \<le> length ps \<and> ''{prompt} and {prompt}'' = join ''{prompt}'' ps
        \<and> substitute ''{prompt} and {prompt}'' ''X'' = join ''X'' ps)
   \<and> substitute ''plain text'' ''Y'' = ''plain text, Y''"
proof (rule conjI)
  have "''{prompt} and {prompt}'' = '''' @ ''{prompt}'' @ '' and {prompt}''"
    by simp
  then have h1: "\<exists>a b. ''{prompt} and {prompt}'' = a @ ''{prompt}'' @ b"
    by (intro exI)
  obtain ps where "2 \<le> length ps" "''{prompt} and {prompt}'' = join ''{prompt}'' ps"
      "substitute ''{prompt} and {prompt}'' ''X'' = join ''X'' ps"
    using substitute_cases [of "''{prompt} and {prompt}''" "''X''", THEN conjunct1, THEN mp, OF h1]
    by (elim exE conjE)
  then show "\<exists>ps. 2 \<le> length ps \<and> ''{prompt} and {prompt}'' = join ''{prompt}'' ps
        \<and> substitute ''{prompt} and {prompt}'' ''X'' = join ''X'' ps"
    by (intro exI conjI)
next
  have "\<not> contains ''{prompt}'' ''plain text''"
    by (simp add: starts_with_def)
  then have h2: "\<not> (\<exists>a b. ''plain text'' = a @ ''{prompt}'' @ b) \<and> ''plain text'' \<noteq> ''''"
    by (simp add: contains_iff)
  show "substitute ''plain text'' ''Y'' = ''plain text, Y''"
    using substitute_cases [of "''plain text''" "''Y''", THEN conjunct2, THEN conjunct1,
        THEN mp, OF h2]
    by simp
qed

text \<open>
  C8. For a category name that is not in the catalog, and for a style name
  that no style of the selected category has, \<open>resolveSingle\<close> returns the pair
  of \<open>No Styles Found\<close> and the empty string, whatever the weight, the weight
  formatter and the prompt fragment are. Its result is always a pair of
  strings: the function has no failure.
\<close>

theorem resolveSingle_fallback:
  "cat (categoryName sel) = None
   \<or> (\<exists>styles. cat (categoryName sel) = Some styles \<and> styleName sel \<notin> name ` set styles) \<Longrightarrow>
   resolveSingle aw cat sel promptFragment = (''No Styles Found'', '''')"
proof -
  have nf: "find (\<lambda>r. name r = s) styles = None" if "s \<notin> name ` set styles"
    for s and styles :: "style_record list"
    using that by (auto simp: find_None_iff)
  assume "cat (categoryName sel) = None
   \<or> (\<exists>styles. cat (categoryName sel) = Some styles \<and> styleName sel \<notin> name ` set styles)"
  then show ?thesis
    using nf by (auto simp: resolveSingle_def FALLBACK_TEXT_def)
qed

theorem resolveSingle_fallback_witness:
  "resolveSingle ex_applyWeight ex_catalog (ex_slot ''Artists'' ''Vivid'') ''a cat'' =
     (''No Styles Found'', '''')
   \<and> resolveSingle ex_applyWeight ex_catalog (ex_slot ''Basic'' ''Noir'') ''a cat'' =
     (''No Styles Found'', '''')"
proof -
  have h1: "ex_catalog (categoryName (ex_slot ''Artists'' ''Vivid'')) = None"
    by (simp add: ex_catalog_def ex_slot_def)
  have h2: "\<exists>styles. ex_catalog (categoryName (ex_slot ''Basic'' ''Noir'')) = Some styles
       \<and> styleName (ex_slot ''Basic'' ''Noir'') \<notin> name ` set styles"
    by (simp add: ex_catalog_def ex_slot_def)
  show ?thesis
    using resolveSingle_fallback [of ex_catalog "ex_slot ''Artists'' ''Vivid''"
        ex_applyWeight "''a cat''"] h1
      resolveSingle_fallback [of ex_catalog "ex_slot ''Basic'' ''Noir''"
        ex_applyWeight "''a cat''"] h2
    by blast
qed

end
